theory Spec2Isabelle
  imports Complex_Main "HOL-Library.Char_ord" "HOL-Library.List_Lexorder"
begin

section \<open>JavaScript numbers and values\<close>

text \<open>
  The program computes with JavaScript numbers. A number is modelled as an exact real
  or one of the three special values of IEEE arithmetic that the code can produce and
  test for: \<open>Number.POSITIVE_INFINITY\<close>, its negation, and \<open>NaN\<close>. The special values
  follow the IEEE rules (\<open>x / 0\<close>, \<open>Infinity - Infinity\<close>, comparisons with \<open>NaN\<close>).
  Finite arithmetic is exact in these operations, and the sign of zero is not modelled.
  The rounding of doubles and their overflow to infinity are a separate function,
  \<open>round64\<close> below, applied where a property depends on it (the bound on \<open>rma\<close>).
\<close>

datatype jsnum = Fin real | PInf | NInf | NaN

fun jneg :: "jsnum \<Rightarrow> jsnum" where
  "jneg (Fin a) = Fin (- a)"
| "jneg PInf = NInf"
| "jneg NInf = PInf"
| "jneg NaN = NaN"

fun jadd :: "jsnum \<Rightarrow> jsnum \<Rightarrow> jsnum" where
  "jadd NaN _ = NaN"
| "jadd _ NaN = NaN"
| "jadd (Fin a) (Fin b) = Fin (a + b)"
| "jadd PInf NInf = NaN"
| "jadd NInf PInf = NaN"
| "jadd PInf _ = PInf"
| "jadd _ PInf = PInf"
| "jadd NInf _ = NInf"
| "jadd _ NInf = NInf"

definition jsub :: "jsnum \<Rightarrow> jsnum \<Rightarrow> jsnum" where
  "jsub a b = jadd a (jneg b)"

text \<open>The sign of a number that is not \<open>NaN\<close>: \<open>-1\<close>, \<open>0\<close> or \<open>1\<close>.\<close>

fun jsign :: "jsnum \<Rightarrow> int" where
  "jsign (Fin a) = (if a < 0 then - 1 else if a = 0 then 0 else 1)"
| "jsign PInf = 1"
| "jsign NInf = - 1"
| "jsign NaN = 0"

definition inf_of_sign :: "int \<Rightarrow> jsnum" where
  "inf_of_sign s = (if s = 0 then NaN else if s < 0 then NInf else PInf)"

fun jmul :: "jsnum \<Rightarrow> jsnum \<Rightarrow> jsnum" where
  "jmul NaN _ = NaN"
| "jmul _ NaN = NaN"
| "jmul (Fin a) (Fin b) = Fin (a * b)"
| "jmul a b = inf_of_sign (jsign a * jsign b)"

fun jdiv :: "jsnum \<Rightarrow> jsnum \<Rightarrow> jsnum" where
  "jdiv NaN _ = NaN"
| "jdiv _ NaN = NaN"
| "jdiv (Fin a) (Fin b) = (if b = 0 then inf_of_sign (jsign (Fin a)) else Fin (a / b))"
| "jdiv (Fin a) _ = Fin 0"
| "jdiv a (Fin b) = inf_of_sign (jsign a * (if b < 0 then - 1 else 1))"
| "jdiv _ _ = NaN"

fun jabs :: "jsnum \<Rightarrow> jsnum" where
  "jabs (Fin a) = Fin \<bar>a\<bar>"
| "jabs PInf = PInf"
| "jabs NInf = PInf"
| "jabs NaN = NaN"

text \<open>\<open>a < b\<close> and \<open>a <= b\<close>: false as soon as an operand is \<open>NaN\<close>.\<close>

fun jlt :: "jsnum \<Rightarrow> jsnum \<Rightarrow> bool" where
  "jlt NaN _ = False"
| "jlt _ NaN = False"
| "jlt (Fin a) (Fin b) = (a < b)"
| "jlt PInf _ = False"
| "jlt _ PInf = True"
| "jlt NInf NInf = False"
| "jlt NInf _ = True"
| "jlt _ NInf = False"

definition jle :: "jsnum \<Rightarrow> jsnum \<Rightarrow> bool" where
  "jle a b = (a \<noteq> NaN \<and> b \<noteq> NaN \<and> (a = b \<or> jlt a b))"

definition jgt :: "jsnum \<Rightarrow> jsnum \<Rightarrow> bool" where
  "jgt a b = jlt b a"

text \<open>\<open>a !== b\<close> on numbers: \<open>NaN\<close> differs from everything, itself included.\<close>

definition jsne :: "jsnum \<Rightarrow> jsnum \<Rightarrow> bool" where
  "jsne a b = (a = NaN \<or> b = NaN \<or> a \<noteq> b)"

text \<open>\<open>Math.max\<close> of two and of three numbers: \<open>NaN\<close> as soon as an argument is.\<close>

definition jmax :: "jsnum \<Rightarrow> jsnum \<Rightarrow> jsnum" where
  "jmax a b = (if a = NaN \<or> b = NaN then NaN else if jlt a b then b else a)"

definition jmax3 :: "jsnum \<Rightarrow> jsnum \<Rightarrow> jsnum \<Rightarrow> jsnum" where
  "jmax3 a b c = jmax (jmax a b) c"

text \<open>
  What a function declared \<open>number | null\<close> can hand back. \<open>Undefined\<close> is what reading
  an array out of range gives; it is not \<open>null\<close>.
\<close>

datatype jsval = Null | Undefined | Num jsnum

text \<open>Truthiness, as tested by \<open>&&\<close> and \<open>? :\<close>: \<open>null\<close>, \<open>undefined\<close>, \<open>0\<close> and \<open>NaN\<close> are falsy.\<close>

fun truthy :: "jsval \<Rightarrow> bool" where
  "truthy (Num (Fin a)) = (a \<noteq> 0)"
| "truthy (Num NaN) = False"
| "truthy (Num _) = True"
| "truthy _ = False"

text \<open>\<open>arr[i]\<close> as a value, and as an operand of arithmetic (\<open>undefined\<close> becomes \<open>NaN\<close>).\<close>

definition arr_get :: "jsnum list \<Rightarrow> int \<Rightarrow> jsval" where
  "arr_get arr i = (if 0 \<le> i \<and> i < int (length arr) then Num (arr ! nat i) else Undefined)"

fun to_number :: "jsval \<Rightarrow> jsnum" where
  "to_number (Num x) = x"
| "to_number Undefined = NaN"
| "to_number Null = Fin 0"

definition arr_num :: "jsnum list \<Rightarrow> int \<Rightarrow> jsnum" where
  "arr_num arr i = to_number (arr_get arr i)"

text \<open>\<open>arr[i] ?? 0\<close>.\<close>

definition arr_or0 :: "jsnum list \<Rightarrow> int \<Rightarrow> jsnum" where
  "arr_or0 arr i = (case arr_get arr i of Num x \<Rightarrow> x | _ \<Rightarrow> Fin 0)"

section \<open>Loops\<close>

text \<open>\<open>for (let i = from; i < to; i++) acc = body(i, acc)\<close>.\<close>

function for_loop :: "int \<Rightarrow> int \<Rightarrow> (int \<Rightarrow> 'a \<Rightarrow> 'a) \<Rightarrow> 'a \<Rightarrow> 'a" where
  "for_loop i n body acc = (if i < n then for_loop (i + 1) n body (body i acc) else acc)"
  by pat_completeness auto
termination
  by (relation "measure (\<lambda>(i, n, body, acc). nat (n - i))") auto

declare for_loop.simps [simp del]

section \<open>Indicator engine\<close>

text \<open>\<open>calcEMA\<close>, \<open>sma\<close> and \<open>rma\<close>, the same in the server and in the example script.\<close>

definition calcEMA :: "jsnum list \<Rightarrow> int \<Rightarrow> jsval" where
  "calcEMA arr n =
     (if int (length arr) < n then Null
      else let k = jdiv (Fin 2) (jadd (Fin (of_int n)) (Fin 1)) in
        case arr_get arr 0 of
          Num ema0 \<Rightarrow>
            Num (for_loop 1 (int (length arr))
                   (\<lambda>i ema. jadd (jmul (arr_num arr i) k) (jmul ema (jsub (Fin 1) k))) ema0)
        | v \<Rightarrow> v)"

definition sma :: "jsnum list \<Rightarrow> int \<Rightarrow> jsval" where
  "sma arr n =
     (if int (length arr) < n then Null
      else let sum = for_loop (int (length arr) - n) (int (length arr))
                       (\<lambda>i sum. jadd sum (arr_num arr i)) (Fin 0)
           in Num (jdiv sum (Fin (of_int n))))"

definition rma :: "jsnum list \<Rightarrow> int \<Rightarrow> jsval" where
  "rma arr n =
     (if int (length arr) < n then Null
      else let sum = for_loop 0 n (\<lambda>i sum. jadd sum (arr_num arr i)) (Fin 0);
               val = jdiv sum (Fin (of_int n));
               alpha = jdiv (Fin 1) (Fin (of_int n))
           in Num (for_loop n (int (length arr))
                     (\<lambda>i val. jadd (jmul alpha (arr_num arr i)) (jmul (jsub (Fin 1) alpha) val)) val))"

section \<open>Rounding made explicit\<close>

text \<open>
  A double has a significand of 53 bits; the result of an operation is the exact result
  rounded to the nearest double, ties to the even significand, and infinite when the
  rounded magnitude reaches \<open>2^1024\<close>. \<open>binade fuel x\<close> is the exponent \<open>e\<close> with
  \<open>2^e \<le> |x| < 2^(e+1)\<close>, found in at most \<open>fuel\<close> halvings or doublings; below the
  least normal exponent \<open>-1022\<close> the spacing of the doubles stays \<open>2^-1074\<close>.
\<close>

definition round_half_even :: "real \<Rightarrow> int" where
  "round_half_even q =
     (let f = \<lfloor>q\<rfloor>; r = q - of_int f
      in if r < 1 / 2 then f else if 1 / 2 < r then f + 1 else if even f then f else f + 1)"

fun binade :: "nat \<Rightarrow> real \<Rightarrow> int" where
  "binade 0 x = 0"
| "binade (Suc fuel) x =
     (if 2 \<le> \<bar>x\<bar> then binade fuel (x / 2) + 1
      else if \<bar>x\<bar> < 1 then binade fuel (x * 2) - 1
      else 0)"

definition pow2 :: "int \<Rightarrow> real" where
  "pow2 e = (if 0 \<le> e then 2 ^ nat e else 1 / 2 ^ nat (- e))"

definition round64 :: "real \<Rightarrow> jsnum" where
  "round64 x =
     (if x = 0 then Fin 0
      else let e = max (binade 2200 x) (- 1022);
               ulp = pow2 (e - 52);
               r = of_int (round_half_even (x / ulp)) * ulp
           in if pow2 1024 \<le> \<bar>r\<bar> then (if x < 0 then NInf else PInf) else Fin r)"

text \<open>
  \<open>rma\<close> once more, with every arithmetic result passed through \<open>rnd\<close>: with
  \<open>round64\<close> it computes the doubles of the program, with \<open>Fin\<close> it is \<open>rma\<close> above.
\<close>

definition rounded :: "(real \<Rightarrow> jsnum) \<Rightarrow> jsnum \<Rightarrow> jsnum" where
  "rounded rnd v = (case v of Fin r \<Rightarrow> rnd r | _ \<Rightarrow> v)"

definition rma_with :: "(real \<Rightarrow> jsnum) \<Rightarrow> jsnum list \<Rightarrow> int \<Rightarrow> jsval" where
  "rma_with rnd arr n =
     (if int (length arr) < n then Null
      else let sum = for_loop 0 n (\<lambda>i sum. rounded rnd (jadd sum (arr_num arr i))) (Fin 0);
               val = rounded rnd (jdiv sum (Fin (of_int n)));
               alpha = rounded rnd (jdiv (Fin 1) (Fin (of_int n)))
           in Num (for_loop n (int (length arr))
                     (\<lambda>i val. rounded rnd
                        (jadd (rounded rnd (jmul alpha (arr_num arr i)))
                              (rounded rnd (jmul (rounded rnd (jsub (Fin 1) alpha)) val)))) val))"

section \<open>Classifier\<close>

datatype trend = Up | Down

datatype rating = Strong_up | Up_rating | Neutral | Down_rating | Strong_down

text \<open>
  The rating as the two discovery tools compute it: \<open>neutral\<close>, then overwritten in
  the \<open>up\<close> branch and in the \<open>down\<close> branch. A \<open>null\<close> trend and a \<open>null\<close> change
  are \<open>None\<close>.
\<close>

definition rating_up :: "jsnum option \<Rightarrow> rating" where
  "rating_up pct24h =
     (if pct24h \<noteq> None \<and> jgt (the pct24h) (Fin 2) then Strong_up
      else if pct24h \<noteq> None \<and> jgt (the pct24h) (Fin 1) then Up_rating else Neutral)"

definition rating_down :: "jsnum option \<Rightarrow> rating" where
  "rating_down pct24h =
     (if pct24h \<noteq> None \<and> jlt (the pct24h) (Fin (- 2)) then Strong_down
      else if pct24h \<noteq> None \<and> jlt (the pct24h) (Fin (- 1)) then Down_rating else Neutral)"

definition rating_of :: "trend option \<Rightarrow> jsnum option \<Rightarrow> rating" where
  "rating_of trend pct24h =
     (let rating = Neutral;
          rating = (if trend = Some Up then rating_up pct24h else rating);
          rating = (if trend = Some Down then rating_down pct24h else rating)
      in rating)"

text \<open>\<open>rate\<close> of the example script: the same branches, written with early returns.\<close>

definition rate :: "trend option \<Rightarrow> jsnum option \<Rightarrow> rating" where
  "rate trend pct24h =
     (if trend = Some Up then rating_up pct24h
      else if trend = Some Down then rating_down pct24h
      else Neutral)"

section \<open>Discovery pipeline: one asset\<close>

text \<open>
  One kline of the exchange after \<open>parseFloat\<close> of its high, low and close columns,
  and the ranking provider's fields kept in a summary. They are read off parsed JSON
  untyped: a field is a number, \<open>null\<close>, or missing (\<open>Undefined\<close>).
\<close>

record candle =
  high :: jsnum
  low :: jsnum
  close :: jsnum

record cmc_slim =
  market_cap :: jsval
  percent_change_24h :: jsval
  rank :: jsval

record summary =
  symbol :: string
  price :: "jsnum option"
  pct24h :: "jsnum option"
  vol24h :: "jsnum option"
  atrPct :: "jsnum option"
  trend :: "trend option"
  rating :: rating
  cmc :: "cmc_slim option"

text \<open>\<open>closes[closes.length - 1] ?? null\<close>.\<close>

definition lastClose_of :: "jsnum list \<Rightarrow> jsval" where
  "lastClose_of closes =
     (case arr_get closes (int (length closes) - 1) of Num x \<Rightarrow> Num x | _ \<Rightarrow> Null)"

text \<open>The true-range loop: one \<open>push\<close> for each index of \<open>closes\<close>.\<close>

definition tr_at :: "jsnum list \<Rightarrow> jsnum list \<Rightarrow> jsnum list \<Rightarrow> int \<Rightarrow> jsnum" where
  "tr_at highs lows closes i =
     (let hl = jsub (arr_or0 highs i) (arr_or0 lows i);
          hc = (if i > 0 then jabs (jsub (arr_or0 highs i) (arr_or0 closes (i - 1))) else Fin 0);
          lc = (if i > 0 then jabs (jsub (arr_or0 lows i) (arr_or0 closes (i - 1))) else Fin 0)
      in jmax3 hl hc lc)"

definition tr_series :: "jsnum list \<Rightarrow> jsnum list \<Rightarrow> jsnum list \<Rightarrow> jsnum list" where
  "tr_series highs lows closes =
     for_loop 0 (int (length closes)) (\<lambda>i tr. tr @ [tr_at highs lows closes i]) []"

definition true_range :: "candle list \<Rightarrow> jsnum list" where
  "true_range klines = tr_series (map high klines) (map low klines) (map close klines)"

text \<open>\<open>atr && lastClose ? (atr / lastClose) * 100 : null\<close>.\<close>

definition atrPct_of :: "jsval \<Rightarrow> jsval \<Rightarrow> jsnum option" where
  "atrPct_of atr lastClose =
     (if truthy atr \<and> truthy lastClose
      then Some (jmul (jdiv (to_number atr) (to_number lastClose)) (Fin 100))
      else None)"

definition jsval_opt :: "jsval \<Rightarrow> jsnum option" where
  "jsval_opt v = (case v of Num x \<Rightarrow> Some x | _ \<Rightarrow> None)"

definition trend_of :: "jsnum list \<Rightarrow> trend option" where
  "trend_of closes =
     (let lastClose = lastClose_of closes;
          ema50 = calcEMA closes 50;
          ema200 = calcEMA closes 200;
          sma200 = sma closes 200
      in if ema50 \<noteq> Null \<and> ema200 \<noteq> Null
         then (if jgt (to_number ema50) (to_number ema200) then Some Up else Some Down)
         else if sma200 \<noteq> Null \<and> lastClose \<noteq> Null
         then (if jgt (to_number lastClose) (to_number sma200) then Some Up else Some Down)
         else None)"

text \<open>
  The body of the loop over the listing, after both fetches have succeeded: the
  indicators of one asset and its summary. The ticker holds \<open>priceChangePercent\<close>
  and \<open>volume\<close> after \<open>parseFloat\<close>; a falsy ticker is \<open>None\<close>.
\<close>

record ticker =
  priceChangePercent :: jsnum
  volume :: jsnum

definition atrPct_klines :: "candle list \<Rightarrow> jsnum option" where
  "atrPct_klines klines =
     (let closes = map close klines;
          lastClose = lastClose_of closes;
          tr = true_range klines;
          atr = rma tr 14
      in atrPct_of atr lastClose)"

definition summarise :: "string \<Rightarrow> ticker option \<Rightarrow> candle list \<Rightarrow> cmc_slim \<Rightarrow> summary" where
  "summarise base tick klines cmcSlim =
     (let closes = map close klines;
          tr = trend_of closes;
          pct = map_option priceChangePercent tick;
          vol = map_option volume tick
      in \<lparr> symbol = base @ ''USDT'',
           price = jsval_opt (lastClose_of closes),
           pct24h = pct,
           vol24h = vol,
           atrPct = atrPct_klines klines,
           trend = tr,
           rating = rating_of tr pct,
           cmc = Some cmcSlim \<rparr>)"

section \<open>Ranker and filter\<close>

text \<open>The filter of \<open>discover-pick\<close>.\<close>

definition rankOk :: "jsnum \<Rightarrow> summary \<Rightarrow> bool" where
  "rankOk rankMax s =
     (case cmc s of None \<Rightarrow> False
      | Some c \<Rightarrow> (if rank c \<noteq> Undefined then jle (to_number (rank c)) rankMax else False))"

definition atrOk :: "jsnum \<Rightarrow> summary \<Rightarrow> bool" where
  "atrOk atrPctMax s = (case atrPct s of None \<Rightarrow> False | Some a \<Rightarrow> jle a atrPctMax)"

definition passes :: "jsnum \<Rightarrow> jsnum \<Rightarrow> summary \<Rightarrow> bool" where
  "passes rankMax atrPctMax s = (rankOk rankMax s \<and> atrOk atrPctMax s)"

definition filtered :: "jsnum \<Rightarrow> jsnum \<Rightarrow> summary list \<Rightarrow> summary list" where
  "filtered rankMax atrPctMax summaries = filter (passes rankMax atrPctMax) summaries"

fun ratingScore :: "rating \<Rightarrow> jsnum" where
  "ratingScore Strong_up = Fin 4"
| "ratingScore Up_rating = Fin 3"
| "ratingScore Neutral = Fin 2"
| "ratingScore Down_rating = Fin 1"
| "ratingScore Strong_down = Fin 0"

text \<open>The three operands the comparators read off a summary.\<close>

definition atr_or_inf :: "summary \<Rightarrow> jsnum" where
  "atr_or_inf s = (case atrPct s of Some a \<Rightarrow> a | None \<Rightarrow> PInf)"

definition vol_or0 :: "summary \<Rightarrow> jsnum" where
  "vol_or0 s = (case vol24h s of Some v \<Rightarrow> v | None \<Rightarrow> Fin 0)"

definition abs_move :: "summary \<Rightarrow> jsnum" where
  "abs_move s = (case pct24h s of Some p \<Rightarrow> jabs p | None \<Rightarrow> Fin 0)"

text \<open>The comparator of \<open>discover-top\<close>.\<close>

definition top_cmp :: "summary \<Rightarrow> summary \<Rightarrow> jsnum" where
  "top_cmp a b =
     (let ra = ratingScore (rating a); rb = ratingScore (rating b) in
      if jsne rb ra then jsub rb ra
      else let aAtr = atr_or_inf a; bAtr = atr_or_inf b in
      if jsne aAtr bAtr then jsub aAtr bAtr
      else let ma = abs_move a; mb = abs_move b in jsub mb ma)"

text \<open>The comparator \<open>cmp\<close> of \<open>discover-pick\<close>, for the lower-cased strategy name.\<close>

definition cmp :: "string \<Rightarrow> summary \<Rightarrow> summary \<Rightarrow> jsnum" where
  "cmp strategy a b =
     (let ra = ratingScore (rating a); rb = ratingScore (rating b);
          aAtr = atr_or_inf a; bAtr = atr_or_inf b;
          va = vol_or0 a; vb = vol_or0 b;
          ma = abs_move a; mb = abs_move b in
      if jsne rb ra then jsub rb ra
      else if strategy = ''strong_up_high_vol'' then
        (if jsne vb va then jsub vb va
         else if jsne aAtr bAtr then jsub aAtr bAtr
         else jsub mb ma)
      else
        (if jsne aAtr bAtr then jsub aAtr bAtr
         else if jsne vb va then jsub vb va
         else jsub mb ma))"

section \<open>Market data gateway: the request cache\<close>

text \<open>
  A parameter object is its list of properties, with distinct names. The values are
  strings, numbers, \<open>null\<close> or \<open>undefined\<close>.
\<close>

datatype pval = PStr string | PNum jsnum | PNull | PUndefined

type_synonym params = "(string \<times> pval) list"

text \<open>
  \<open>buildCacheKey\<close>: the property names sorted, a fresh object filled in that order,
  then \<open>JSON.stringify\<close>. The platform's \<open>JSON.stringify\<close> on the fresh object is the
  parameter \<open>stringify\<close>; names are compared as character lists.
\<close>

definition sortedParams :: "params \<Rightarrow> params" where
  "sortedParams ps =
     foldl (\<lambda>acc key. acc @ [(key, case map_of ps key of Some v \<Rightarrow> v | None \<Rightarrow> PUndefined)])
       [] (sort (map fst ps))"

definition buildCacheKey :: "(params \<Rightarrow> string) \<Rightarrow> string \<Rightarrow> params \<Rightarrow> string" where
  "buildCacheKey stringify endpoint ps = endpoint @ ''|'' @ stringify (sortedParams ps)"

record 'd cache_entry =
  ts :: int
  data :: 'd

type_synonym 'd api_cache = "string \<rightharpoonup> 'd cache_entry"

text \<open>
  What \<open>fetch\<close> does: it rejects (a network error), or resolves to a response with its
  \<open>ok\<close> flag and its body, \<open>None\<close> when \<open>response.json()\<close> throws.
\<close>

record 'd response =
  ok :: bool
  json :: "'d option"

datatype 'd fetch_result = Rejected | Resolved "'d response"

text \<open>
  \<open>makeApiRequest\<close> with its state and its environment made explicit: the cache before,
  the clock at the lookup and at the store, and what the network answers if it is asked.
  It returns the value (\<open>None\<close> is \<open>null\<close>), the cache after, and whether \<open>fetch\<close> was
  called. The URL and the headers of the request enter no decision and are left out.
\<close>

definition makeApiRequest ::
  "(params \<Rightarrow> string) \<Rightarrow> int \<Rightarrow> 'd api_cache \<Rightarrow> int \<Rightarrow> int \<Rightarrow> 'd fetch_result \<Rightarrow>
   string \<Rightarrow> params \<Rightarrow> 'd option \<times> 'd api_cache \<times> bool" where
  "makeApiRequest stringify CACHE_TTL_MS apiCache now now_store net endpoint ps =
     (let key = buildCacheKey stringify endpoint ps;
          cached = apiCache key
      in if cached \<noteq> None \<and> now - ts (the cached) < CACHE_TTL_MS
         then (Some (data (the cached)), apiCache, False)
         else (case net of
                 Rejected \<Rightarrow> (None, apiCache, True)
               | Resolved response \<Rightarrow>
                   if \<not> ok response then (None, apiCache, True)
                   else (case json response of
                           None \<Rightarrow> (None, apiCache, True)
                         | Some j \<Rightarrow>
                             (Some j, apiCache(key \<mapsto> \<lparr> ts = now_store, data = j \<rparr>), True))))"

text \<open>The listing payload and \<open>listings?.data ?? []\<close>.\<close>

record 'i listings =
  listing_data :: "'i list option"

definition candidates :: "'i listings option \<Rightarrow> 'i list" where
  "candidates listings =
     (case listings of None \<Rightarrow> []
      | Some l \<Rightarrow> (case listing_data l of None \<Rightarrow> [] | Some xs \<Rightarrow> xs))"

text \<open>Step 1 of both discovery tools: the listing call and its candidate set.\<close>

definition listing_params :: "jsnum \<Rightarrow> string \<Rightarrow> string \<Rightarrow> string \<Rightarrow> params" where
  "listing_params topN convert sort_field sort_dir =
     [(''limit'', PNum topN), (''convert'', PStr convert),
      (''sort'', PStr sort_field), (''sort_dir'', PStr sort_dir)]"

definition discover_candidates ::
  "(params \<Rightarrow> string) \<Rightarrow> int \<Rightarrow> 'i listings api_cache \<Rightarrow> int \<Rightarrow> int \<Rightarrow>
   'i listings fetch_result \<Rightarrow> params \<Rightarrow> 'i list" where
  "discover_candidates stringify ttl apiCache now now_store net ps =
     candidates (fst (makeApiRequest stringify ttl apiCache now now_store net
                        ''/cryptocurrency/listings/latest'' ps))"

section \<open>Inputs used in examples, and the failure cases of a fetch\<close>

text \<open>
  A fetch fails when \<open>fetch\<close> rejects, when the status is not a success, or when the
  body does not parse.
\<close>

fun fetch_failed :: "'d fetch_result \<Rightarrow> bool" where
  "fetch_failed Rejected = True"
| "fetch_failed (Resolved r) = (\<not> ok r \<or> json r = None)"

definition flat14 :: "candle list" where
  "flat14 = replicate 14 \<lparr> high = Fin 1, low = Fin 1, close = Fin 1 \<rparr>"

definition wide14 :: "candle list" where
  "wide14 = replicate 14 \<lparr> high = Fin 3, low = Fin 1, close = Fin 2 \<rparr>"

definition inverted :: candle where
  "inverted = \<lparr> high = Fin 1, low = Fin 2, close = Fin 1 \<rparr>"

definition two_candles :: "candle list" where
  "two_candles = [\<lparr> high = Fin 3, low = Fin 1, close = Fin 2 \<rparr>,
                  \<lparr> high = Fin 5, low = Fin 4, close = Fin 4 \<rparr>]"

definition null_ranked :: summary where
  "null_ranked = \<lparr> symbol = ''BTCUSDT'', price = Some (Fin 10), pct24h = Some (Fin 3),
     vol24h = Some (Fin 7), atrPct = Some (Fin (1 / 2)), trend = Some Up, rating = Strong_up,
     cmc = Some \<lparr> market_cap = Null, percent_change_24h = Null, rank = Null \<rparr> \<rparr>"

definition hi_vol :: summary where
  "hi_vol = \<lparr> symbol = ''ETHUSDT'', price = Some (Fin 10), pct24h = Some (Fin 1),
     vol24h = Some (Fin 9), atrPct = Some (Fin 1), trend = None, rating = Neutral,
     cmc = Some \<lparr> market_cap = Undefined, percent_change_24h = Undefined, rank = Num (Fin 2) \<rparr> \<rparr>"

definition big_move :: summary where
  "big_move = \<lparr> symbol = ''SOLUSDT'', price = Some (Fin 10), pct24h = Some (Fin (- 5)),
     vol24h = Some (Fin 1), atrPct = Some (Fin 1), trend = None, rating = Neutral,
     cmc = Some \<lparr> market_cap = Undefined, percent_change_24h = Undefined, rank = Num (Fin 5) \<rparr> \<rparr>"

text \<open>The double nearest to \<open>0.1\<close>.\<close>

definition tenth :: real where
  "tenth = 3602879701896397 / 36028797018963968"





section \<open>The orderings of the specification\<close>

text \<open>
  The summaries of the data model: every key a comparator reads is a finite number or
  absent.
\<close>

fun is_fin_opt :: "jsnum option \<Rightarrow> bool" where
  "is_fin_opt None = True"
| "is_fin_opt (Some (Fin _)) = True"
| "is_fin_opt (Some _) = False"

definition finite_keys :: "summary \<Rightarrow> bool" where
  "finite_keys s = (is_fin_opt (atrPct s) \<and> is_fin_opt (vol24h s) \<and> is_fin_opt (pct24h s))"

text \<open>
  \<open>pick_before a b\<close>: on the first key on which \<open>a\<close> and \<open>b\<close> differ, \<open>a\<close> comes first.
  The keys are the rating score (higher first), \<open>atrPercent\<close> with absent as infinity
  (lower first), the 24h volume with absent as 0 (higher first) and the absolute 24h
  change with absent as 0 (higher first). \<open>top_before\<close> is the same without the volume.
\<close>

definition pick_before :: "summary \<Rightarrow> summary \<Rightarrow> bool" where
  "pick_before a b =
     (jgt (ratingScore (rating a)) (ratingScore (rating b))
      \<or> (ratingScore (rating a) = ratingScore (rating b)
          \<and> (jlt (atr_or_inf a) (atr_or_inf b)
              \<or> (atr_or_inf a = atr_or_inf b
                  \<and> (jgt (vol_or0 a) (vol_or0 b)
                      \<or> (vol_or0 a = vol_or0 b \<and> jgt (abs_move a) (abs_move b)))))))"

definition top_before :: "summary \<Rightarrow> summary \<Rightarrow> bool" where
  "top_before a b =
     (jgt (ratingScore (rating a)) (ratingScore (rating b))
      \<or> (ratingScore (rating a) = ratingScore (rating b)
          \<and> (jlt (atr_or_inf a) (atr_or_inf b)
              \<or> (atr_or_inf a = atr_or_inf b \<and> jgt (abs_move a) (abs_move b)))))"

text \<open>
  A comparator result \<open>c\<close> agrees with an ordering: negative exactly when the first
  argument comes first, positive exactly when the second does, and zero exactly when
  neither does.
\<close>

definition agrees :: "jsnum \<Rightarrow> bool \<Rightarrow> bool \<Rightarrow> bool" where
  "agrees c ab ba =
     ((jlt c (Fin 0) \<longleftrightarrow> ab) \<and> (jlt (Fin 0) c \<longleftrightarrow> ba) \<and> (c = Fin 0 \<longleftrightarrow> \<not> ab \<and> \<not> ba))"

fun ord_key :: "jsnum \<Rightarrow> bool" where
  "ord_key (Fin _) = True"
| "ord_key PInf = True"
| "ord_key _ = False"

text \<open>
  The variable \<open>val\<close> of \<open>rma arr n\<close> when the index of its second loop has reached \<open>m\<close>:
  the seed for \<open>m = n\<close>, the returned value for \<open>m = arr.length\<close>.
\<close>

definition rma_val_at :: "jsnum list \<Rightarrow> int \<Rightarrow> int \<Rightarrow> jsnum" where
  "rma_val_at arr n m =
     (let sum = for_loop 0 n (\<lambda>i sum. jadd sum (arr_num arr i)) (Fin 0);
          val = jdiv sum (Fin (of_int n));
          alpha = jdiv (Fin 1) (Fin (of_int n))
      in for_loop n m
           (\<lambda>i val. jadd (jmul alpha (arr_num arr i)) (jmul (jsub (Fin 1) alpha) val)) val)"

section \<open>Basic facts\<close>

lemma jle_Fin [simp]: "jle (Fin a) (Fin b) = (a \<le> b)"
  by (auto simp: jle_def)

lemma jgt_Fin [simp]: "jgt (Fin a) (Fin b) = (b < a)"
  by (simp add: jgt_def)

lemma jgt_NaN [simp]: "jgt NaN b = False" "jlt NaN b = False"
  by (cases b; simp add: jgt_def)+

lemma jmax_zero: "jmax (Fin a) (Fin 0) = Fin (max a 0)"
  by (auto simp: jmax_def)

lemma truthy_iff:
  "truthy v \<longleftrightarrow> v \<noteq> Null \<and> v \<noteq> Undefined \<and> v \<noteq> Num (Fin 0) \<and> v \<noteq> Num NaN"
  by (cases v rule: truthy.cases) auto

lemma arr_get_not_Null [simp]: "arr_get arr i \<noteq> Null"
  by (simp add: arr_get_def)

lemma arr_get_Nil [simp]: "arr_get [] i = Undefined"
  by (simp add: arr_get_def)

lemma arr_num_nth: "i < length arr \<Longrightarrow> arr_num arr (int i) = arr ! i"
  by (simp add: arr_num_def arr_get_def)

lemma arr_or0_map:
  "0 \<le> j \<Longrightarrow> j < int (length ks) \<Longrightarrow> arr_or0 (map f ks) j = f (ks ! nat j)"
  by (simp add: arr_or0_def arr_get_def)

subsection \<open>The loop\<close>

lemma for_loop_done: "n \<le> i \<Longrightarrow> for_loop i n body acc = acc"
  by (simp add: for_loop.simps)

lemma for_loop_step: "i < n \<Longrightarrow> for_loop i n body acc = for_loop (i + 1) n body (body i acc)"
  by (subst for_loop.simps) simp

lemma for_loop_foldl: "for_loop i n body acc = foldl (\<lambda>a j. body j a) acc [i..n - 1]"
proof (induction i n body acc rule: for_loop.induct)
  case (1 i n body acc)
  show ?case
  proof (cases "i < n")
    case True
    then have "[i..n - 1] = i # [i + 1..n - 1]"
      by (simp add: upto_rec1)
    with True 1 show ?thesis
      by (simp add: for_loop_step)
  next
    case False
    then show ?thesis by (simp add: for_loop_done)
  qed
qed

lemma for_loop_last:
  assumes "i \<le> m"
  shows "for_loop i (m + 1) body acc = body m (for_loop i m body acc)"
proof -
  from assms have "[i..m + 1 - 1] = [i..m - 1] @ [m]"
    by (simp add: upto_rec2)
  then show ?thesis
    by (simp add: for_loop_foldl)
qed

lemma foldl_snoc_map: "foldl (\<lambda>a j. a @ [f j]) acc js = acc @ map f js"
  by (induction js arbitrary: acc) auto

text \<open>A loop that reads \<open>arr[j]\<close> up to the end of \<open>arr\<close> folds over the rest of the list.\<close>

lemma for_loop_drop:
  "i \<le> length arr \<Longrightarrow>
   for_loop (int i) (int (length arr)) (\<lambda>j acc. g (arr_num arr j) acc) acc
     = foldl (\<lambda>acc x. g x acc) acc (drop i arr)"
proof (induction "length arr - i" arbitrary: i acc)
  case 0
  then show ?case by (simp add: for_loop_done)
next
  case (Suc d)
  then have lt: "i < length arr" by simp
  then have "drop i arr = arr ! i # drop (Suc i) arr"
    by (simp add: Cons_nth_drop_Suc)
  moreover have "for_loop (int i + 1) (int (length arr)) (\<lambda>j acc. g (arr_num arr j) acc) (g (arr ! i) acc)
      = foldl (\<lambda>acc x. g x acc) (g (arr ! i) acc) (drop (Suc i) arr)"
    using Suc.hyps(1) [of "Suc i" "g (arr ! i) acc"] Suc.hyps(2) lt
    by (simp add: add.commute)
  ultimately show ?case
    using lt by (simp add: for_loop_step arr_num_nth)
qed

subsection \<open>The true-range series\<close>

lemma tr_series_map:
  "tr_series highs lows closes = map (tr_at highs lows closes) [0..int (length closes) - 1]"
  by (simp add: tr_series_def for_loop_foldl foldl_snoc_map)

lemma length_true_range: "length (true_range ks) = length ks"
  by (simp add: true_range_def tr_series_map)

lemma true_range_nth:
  assumes "i < length ks"
  shows "true_range ks ! i = tr_at (map high ks) (map low ks) (map close ks) (int i)"
proof -
  have "true_range ks ! i
      = map (tr_at (map high ks) (map low ks) (map close ks)) [0..int (length ks) - 1] ! i"
    by (simp add: true_range_def tr_series_map)
  also have "\<dots> = tr_at (map high ks) (map low ks) (map close ks) ([0..int (length ks) - 1] ! i)"
    using assms by (intro nth_map) simp
  also have "[0..int (length ks) - 1] ! i = 0 + int i"
    using assms by (intro nth_upto) simp
  finally show ?thesis by simp
qed

section \<open>Rating\<close>

text \<open>
  Claim C4. The rating is a function of the trend and the 24h percent change alone. With
  trend up it is strong\_up when the change is above 2, else up when it is above 1, else
  neutral; with trend down it is strong\_down when the change is below -2, else down when
  it is below -1, else neutral; with no trend, or with no change (or a \<open>NaN\<close> change) in
  either branch, it is neutral. The example script's \<open>rate\<close> computes the same rating.
\<close>

theorem rating_function_of_trend_and_change:
  "rating_of None pct = Neutral
   \<and> rating_of tr None = Neutral
   \<and> rating_of (Some Up) (Some p) =
       (if jgt p (Fin 2) then Strong_up else if jgt p (Fin 1) then Up_rating else Neutral)
   \<and> rating_of (Some Down) (Some p) =
       (if jlt p (Fin (- 2)) then Strong_down
        else if jlt p (Fin (- 1)) then Down_rating else Neutral)
   \<and> rating_of (Some Up) (Some (Fin x)) =
       (if x > 2 then Strong_up else if x > 1 then Up_rating else Neutral)
   \<and> rating_of (Some Down) (Some (Fin x)) =
       (if x < - 2 then Strong_down else if x < - 1 then Down_rating else Neutral)
   \<and> rating_of tr (Some NaN) = Neutral
   \<and> rate tr pct = rating_of tr pct"
  by (cases tr; simp add: rating_of_def rate_def rating_up_def rating_down_def Let_def)

section \<open>True range\<close>

text \<open>
  Claim C5, as the code has it. The true-range series has the length of the price series.
  At every index \<open>i > 0\<close> it is the maximum of \<open>high[i] - low[i]\<close>,
  \<open>|high[i] - close[i-1]|\<close> and \<open>|low[i] - close[i-1]|\<close>. At index 0 it is the maximum
  of \<open>high[0] - low[0]\<close> and 0, which is \<open>high[0] - low[0]\<close> whenever the first candle
  has \<open>low[0] \<le> high[0]\<close>.
\<close>

theorem true_range_series:
  "length (true_range ks) = length ks
   \<and> (\<forall>i < length ks. true_range ks ! i =
        (if i = 0 then jmax3 (jsub (high (ks ! 0)) (low (ks ! 0))) (Fin 0) (Fin 0)
         else jmax3 (jsub (high (ks ! i)) (low (ks ! i)))
                    (jabs (jsub (high (ks ! i)) (close (ks ! (i - 1)))))
                    (jabs (jsub (low (ks ! i)) (close (ks ! (i - 1)))))))
   \<and> (\<forall>h l. ks \<noteq> [] \<and> high (ks ! 0) = Fin h \<and> low (ks ! 0) = Fin l \<and> l \<le> h
        \<longrightarrow> true_range ks ! 0 = Fin (h - l))"
proof -
  have pos: "true_range ks ! i =
      jmax3 (jsub (high (ks ! i)) (low (ks ! i)))
            (jabs (jsub (high (ks ! i)) (close (ks ! (i - 1)))))
            (jabs (jsub (low (ks ! i)) (close (ks ! (i - 1)))))"
    if "i < length ks" "0 < i" for i
  proof -
    have prev: "nat (int i - 1) = i - 1" by simp
    from that have a: "arr_or0 (map high ks) (int i) = high (ks ! i)"
      and b: "arr_or0 (map low ks) (int i) = low (ks ! i)"
      and c: "arr_or0 (map close ks) (int i - 1) = close (ks ! (i - 1))"
      by (simp_all add: arr_or0_map prev del: of_nat_diff)
    from that have "0 < int i" by simp
    then show ?thesis
      unfolding true_range_nth [OF that(1)] tr_at_def Let_def a b c by simp
  qed
  have zero: "true_range ks ! 0 = jmax3 (jsub (high (ks ! 0)) (low (ks ! 0))) (Fin 0) (Fin 0)"
    if "ks \<noteq> []"
  proof -
    from that have a: "arr_or0 (map high ks) 0 = high (ks ! 0)"
      and b: "arr_or0 (map low ks) 0 = low (ks ! 0)"
      by (simp_all add: arr_or0_map)
    from that have "true_range ks ! 0 = tr_at (map high ks) (map low ks) (map close ks) 0"
      using true_range_nth [of 0] by simp
    then show ?thesis
      unfolding tr_at_def Let_def a b by simp
  qed
  have ordered: "true_range ks ! 0 = Fin (h - l)"
    if "ks \<noteq> []" "high (ks ! 0) = Fin h" "low (ks ! 0) = Fin l" "l \<le> h" for h l
    using that by (simp add: zero jmax3_def jmax_zero jsub_def)
  show ?thesis
  proof (intro conjI allI impI)
    show "length (true_range ks) = length ks" by (rule length_true_range)
  next
    fix i assume "i < length ks"
    then show "true_range ks ! i =
        (if i = 0 then jmax3 (jsub (high (ks ! 0)) (low (ks ! 0))) (Fin 0) (Fin 0)
         else jmax3 (jsub (high (ks ! i)) (low (ks ! i)))
                    (jabs (jsub (high (ks ! i)) (close (ks ! (i - 1)))))
                    (jabs (jsub (low (ks ! i)) (close (ks ! (i - 1))))))"
      using pos [of i] zero by (cases "i = 0") auto
  next
    fix h l
    assume "ks \<noteq> [] \<and> high (ks ! 0) = Fin h \<and> low (ks ! 0) = Fin l \<and> l \<le> h"
    then show "true_range ks ! 0 = Fin (h - l)"
      using ordered by blast
  qed
qed

theorem true_range_series_witness:
  "length (true_range two_candles) = 2
   \<and> true_range two_candles ! 0 = Fin 2
   \<and> true_range two_candles ! 1 = Fin 3"
proof -
  note t = true_range_series [of two_candles]
  have len: "length two_candles = 2" by (simp add: two_candles_def)
  from t have "\<forall>i < length two_candles. true_range two_candles ! i =
        (if i = 0 then jmax3 (jsub (high (two_candles ! 0)) (low (two_candles ! 0))) (Fin 0) (Fin 0)
         else jmax3 (jsub (high (two_candles ! i)) (low (two_candles ! i)))
                    (jabs (jsub (high (two_candles ! i)) (close (two_candles ! (i - 1)))))
                    (jabs (jsub (low (two_candles ! i)) (close (two_candles ! (i - 1))))))"
    by blast
  then have "true_range two_candles ! 1 =
        jmax3 (jsub (high (two_candles ! 1)) (low (two_candles ! 1)))
              (jabs (jsub (high (two_candles ! 1)) (close (two_candles ! 0))))
              (jabs (jsub (low (two_candles ! 1)) (close (two_candles ! 0))))"
    using len by (metis One_nat_def diff_self_eq_0 lessI one_add_one plus_1_eq_Suc zero_neq_one)
  then have one: "true_range two_candles ! 1 = Fin 3"
    by (simp add: two_candles_def jmax3_def jmax_def jsub_def)
  from t have "two_candles \<noteq> [] \<and> high (two_candles ! 0) = Fin 3 \<and> low (two_candles ! 0) = Fin 1
      \<and> (1::real) \<le> 3 \<longrightarrow> true_range two_candles ! 0 = Fin (3 - 1)"
    by blast
  then have zero: "true_range two_candles ! 0 = Fin 2"
    by (simp add: two_candles_def)
  from t len one zero show ?thesis by simp
qed

text \<open>
  A first candle whose high is below its low: the series starts with 0, not with
  \<open>high[0] - low[0] = -1\<close>.
\<close>

theorem true_range_first_counterexample:
  "true_range [inverted] ! 0 = Fin 0
   \<and> jsub (high inverted) (low inverted) = Fin (- 1)
   \<and> true_range [inverted] ! 0 \<noteq> jsub (high inverted) (low inverted)"
  unfolding inverted_def by code_simp

section \<open>Moving averages\<close>

text \<open>
  Claim C6. \<open>calcEMA s p\<close> is \<open>null\<close> when \<open>s\<close> is shorter than \<open>p\<close>. Otherwise it is
  the recurrence over the whole series: the seed is the first element, and every later
  element \<open>c\<close>, in order, replaces the average \<open>ema\<close> by \<open>c * k + ema * (1 - k)\<close> with
  \<open>k = 2 / (p + 1)\<close>; no element is dropped, whatever the period. (The empty series passes
  the length guard only for \<open>p \<le> 0\<close>; its first element is \<open>undefined\<close>, and that is the
  result.)
\<close>

theorem calcEMA_full_recurrence:
  "calcEMA s p =
     (if int (length s) < p then Null
      else case s of
        [] \<Rightarrow> Undefined
      | x # xs \<Rightarrow>
          Num (foldl (\<lambda>ema c. jadd (jmul c (jdiv (Fin 2) (jadd (Fin (of_int p)) (Fin 1))))
                            (jmul ema (jsub (Fin 1) (jdiv (Fin 2) (jadd (Fin (of_int p)) (Fin 1))))))
                 x xs))"
proof (cases s)
  case Nil
  then show ?thesis by (simp add: calcEMA_def Let_def arr_get_def)
next
  case (Cons x xs)
  define k where "k = jdiv (Fin 2) (jadd (Fin (of_int p)) (Fin 1))"
  have "for_loop (int 1) (int (length s))
          (\<lambda>j acc. (\<lambda>c ema. jadd (jmul c k) (jmul ema (jsub (Fin 1) k))) (arr_num s j) acc) x
          = foldl (\<lambda>acc c. (\<lambda>c ema. jadd (jmul c k) (jmul ema (jsub (Fin 1) k))) c acc) x (drop 1 s)"
    using Cons by (intro for_loop_drop) simp
  then have loop: "for_loop 1 (int (length s))
          (\<lambda>i ema. jadd (jmul (arr_num s i) k) (jmul ema (jsub (Fin 1) k))) x
          = foldl (\<lambda>ema c. jadd (jmul c k) (jmul ema (jsub (Fin 1) k))) x xs"
    using Cons by simp
  have get: "arr_get s 0 = Num x"
    using Cons by (simp add: arr_get_def)
  have "calcEMA s p = (if int (length s) < p then Null else Num (for_loop 1 (int (length s))
          (\<lambda>i ema. jadd (jmul (arr_num s i) k) (jmul ema (jsub (Fin 1) k))) x))"
    by (simp add: calcEMA_def Let_def get k_def)
  then have "calcEMA s p = (if int (length s) < p then Null
      else Num (foldl (\<lambda>ema c. jadd (jmul c k) (jmul ema (jsub (Fin 1) k))) x xs))"
    by (simp only: loop)
  then show ?thesis
    unfolding k_def using Cons by simp
qed

text \<open>
  Claim C10. In \<open>calcEMA\<close>, \<open>sma\<close> and \<open>rma\<close> the result is \<open>null\<close> exactly when the
  series is shorter than the period. So for a period \<open>p \<le> 0\<close> none of them returns
  \<open>null\<close>, for any series, the empty one included: \<open>calcEMA\<close> hands back the first element
  of the empty series, \<open>undefined\<close>, and \<open>sma\<close> with period 0 divides 0 by 0 and returns
  \<open>NaN\<close>.
\<close>

theorem guard_fires_iff_shorter_than_period:
  "(calcEMA s p = Null \<longleftrightarrow> int (length s) < p)
   \<and> (sma s p = Null \<longleftrightarrow> int (length s) < p)
   \<and> (rma s p = Null \<longleftrightarrow> int (length s) < p)
   \<and> (p \<le> 0 \<longrightarrow> calcEMA s p \<noteq> Null \<and> sma s p \<noteq> Null \<and> rma s p \<noteq> Null
         \<and> calcEMA [] p = Undefined)
   \<and> sma s 0 = Num NaN"
proof -
  have e: "calcEMA s p = Null \<longleftrightarrow> int (length s) < p"
    by (cases "arr_get s 0") (auto simp: calcEMA_def Let_def)
  have s: "sma s p = Null \<longleftrightarrow> int (length s) < p"
    by (simp add: sma_def Let_def)
  have r: "rma s p = Null \<longleftrightarrow> int (length s) < p"
    by (simp add: rma_def Let_def)
  have u: "p \<le> 0 \<Longrightarrow> calcEMA [] p = Undefined"
    by (simp add: calcEMA_def Let_def)
  have z: "sma s 0 = Num NaN"
    by (simp add: sma_def Let_def for_loop_done inf_of_sign_def)
  from e s r u z show ?thesis by auto
qed

theorem guard_fires_iff_shorter_than_period_witness:
  "(0::int) \<le> 0 \<and> calcEMA [] 0 = Undefined \<and> sma [] 0 = Num NaN \<and> rma [] 0 \<noteq> Null
   \<and> calcEMA [Fin 1] (- 3) \<noteq> Null \<and> sma [Fin 1] (- 3) \<noteq> Null \<and> rma [Fin 1] (- 3) \<noteq> Null"
  using guard_fires_iff_shorter_than_period [of "[]" 0]
    guard_fires_iff_shorter_than_period [of "[Fin 1]" "- 3"]
  by simp

section \<open>ATR percent\<close>

lemma rma_not_Undefined: "rma arr n \<noteq> Undefined"
  by (simp add: rma_def Let_def)

lemma lastClose_not_Undefined: "lastClose_of closes \<noteq> Undefined"
  by (simp add: lastClose_of_def split: jsval.splits)

text \<open>
  Claim C2, as the code has it. For every asset \<open>atrPercent\<close> is absent exactly when the
  ATR is absent, zero or \<open>NaN\<close>, or the last close is absent, zero or \<open>NaN\<close>; in every
  other case it is \<open>ATR / lastClose * 100\<close>. The last close is absent exactly for an empty
  price series, and the ATR is absent exactly for fewer than 14 candles.
\<close>

theorem atrPct_absent_iff_operand_falsy:
  "(atrPct_klines ks = None \<longleftrightarrow>
      rma (true_range ks) 14 = Null \<or> rma (true_range ks) 14 = Num (Fin 0)
      \<or> rma (true_range ks) 14 = Num NaN
      \<or> lastClose_of (map close ks) = Null \<or> lastClose_of (map close ks) = Num (Fin 0)
      \<or> lastClose_of (map close ks) = Num NaN)
   \<and> (\<forall>a c. rma (true_range ks) 14 = Num (Fin a) \<and> lastClose_of (map close ks) = Num (Fin c)
          \<and> a \<noteq> 0 \<and> c \<noteq> 0
        \<longrightarrow> atrPct_klines ks = Some (Fin (a / c * 100)))
   \<and> (lastClose_of (map close ks) = Null \<longleftrightarrow> ks = [])
   \<and> (rma (true_range ks) 14 = Null \<longleftrightarrow> length ks < 14)"
proof -
  have 1: "atrPct_klines ks = None \<longleftrightarrow>
      rma (true_range ks) 14 = Null \<or> rma (true_range ks) 14 = Num (Fin 0)
      \<or> rma (true_range ks) 14 = Num NaN
      \<or> lastClose_of (map close ks) = Null \<or> lastClose_of (map close ks) = Num (Fin 0)
      \<or> lastClose_of (map close ks) = Num NaN"
    using rma_not_Undefined [of "true_range ks" 14] lastClose_not_Undefined [of "map close ks"]
    by (auto simp: atrPct_klines_def atrPct_of_def Let_def truthy_iff)
  have 2: "atrPct_klines ks = Some (Fin (a / c * 100))"
    if "rma (true_range ks) 14 = Num (Fin a)" "lastClose_of (map close ks) = Num (Fin c)"
       "a \<noteq> 0" "c \<noteq> 0" for a c
    using that by (simp add: atrPct_klines_def atrPct_of_def Let_def)
  have 3: "lastClose_of (map close ks) = Null \<longleftrightarrow> ks = []"
    by (cases "ks = []") (auto simp: lastClose_of_def arr_get_def)
  have 4: "rma (true_range ks) 14 = Null \<longleftrightarrow> length ks < 14"
    by (simp add: rma_def Let_def length_true_range)
  from 1 2 3 4 show ?thesis by blast
qed

lemma wide14_operands:
  "rma (true_range wide14) 14 = Num (Fin 2) \<and> lastClose_of (map close wide14) = Num (Fin 2)"
  unfolding wide14_def by code_simp

theorem atrPct_absent_iff_operand_falsy_witness:
  "rma (true_range wide14) 14 = Num (Fin 2) \<and> lastClose_of (map close wide14) = Num (Fin 2)
   \<and> (2::real) \<noteq> 0 \<and> atrPct_klines wide14 = Some (Fin 100)"
  using atrPct_absent_iff_operand_falsy [of wide14] wide14_operands by simp

text \<open>
  Fourteen flat candles at price 1: the ATR is present and zero, the last close is
  present and not zero, and \<open>atrPercent\<close> is absent.
\<close>

theorem atrPct_zero_atr_counterexample:
  "rma (true_range flat14) 14 = Num (Fin 0)
   \<and> lastClose_of (map close flat14) = Num (Fin 1)
   \<and> atrPct_klines flat14 = None"
  unfolding flat14_def by code_simp

section \<open>The filter of discover-pick\<close>

text \<open>
  What the filter computes. The rank is tested against \<open>undefined\<close> only and then
  compared as a number, so a \<open>null\<close> rank is compared as 0; \<open>atrPercent\<close> is tested
  against \<open>null\<close>, the only absent value it can have.
\<close>

lemma passes_iff:
  "passes rankMax atrPctMax s \<longleftrightarrow>
     (\<exists>c a. cmc s = Some c \<and> rank c \<noteq> Undefined \<and> jle (to_number (rank c)) rankMax
            \<and> atrPct s = Some a \<and> jle a atrPctMax)"
  by (auto simp: passes_def rankOk_def atrOk_def split: option.splits)

lemma passes_excludes_missing:
  "cmc s = None \<or> rank (the (cmc s)) = Undefined \<or> atrPct s = None
   \<Longrightarrow> \<not> passes rankMax atrPctMax s"
  by (auto simp: passes_iff)

text \<open>
  Claim C7. The filter is to pass a summary if and only if its rank is present and at
  most \<open>rankMax\<close> and its \<open>atrPercent\<close> is present and at most \<open>atrPctMax\<close>, so that a
  summary with an absent rank is always excluded. The code does not do this for a rank
  that is \<open>null\<close>: with \<open>rankMax = 50\<close> and \<open>atrPctMax = 1\<close>, a summary with a \<open>null\<close>
  rank and an \<open>atrPercent\<close> of 0.5 passes and is kept in the filtered list.
\<close>

theorem null_rank_passes_pick_filter:
  "rank (the (cmc null_ranked)) = Null
   \<and> atrPct null_ranked = Some (Fin (1 / 2))
   \<and> passes (Fin 50) (Fin 1) null_ranked
   \<and> filtered (Fin 50) (Fin 1) [null_ranked] = [null_ranked]"
  by (simp add: null_ranked_def filtered_def passes_def rankOk_def atrOk_def)

section \<open>Failed fetches\<close>

text \<open>
  Claim C8. When \<open>makeApiRequest\<close> calls \<open>fetch\<close> and the fetch fails (the network
  rejects, the status is not a success, or the body does not parse), it returns \<open>null\<close>
  and leaves the cache as it was: nothing is stored and nothing is overwritten, so no
  later call can be served a failure from the cache. For the listing call of the discovery
  tools the candidate set is then empty.
\<close>

theorem failed_fetch_returns_null_cache_unchanged:
  assumes "fetch_failed net"
    and "makeApiRequest stringify ttl apiCache now now_store net endpoint ps = (r, apiCache', True)"
  shows "r = None \<and> apiCache' = apiCache
    \<and> (\<forall>lcache lnet lps.
          fetch_failed lnet
          \<and> snd (snd (makeApiRequest stringify ttl lcache now now_store lnet
                        ''/cryptocurrency/listings/latest'' lps))
          \<longrightarrow> discover_candidates stringify ttl lcache now now_store lnet lps = [])"
proof -
  have "r = None \<and> apiCache' = apiCache"
    using assms
    by (cases net) (auto simp: makeApiRequest_def Let_def split: if_splits option.splits)
  moreover have "discover_candidates stringify ttl lcache now now_store lnet lps = []"
    if "fetch_failed lnet"
      "snd (snd (makeApiRequest stringify ttl (lcache :: 'b listings api_cache) now now_store lnet
                   ''/cryptocurrency/listings/latest'' lps))"
    for lcache lnet lps
    using that
    by (cases lnet)
       (auto simp: discover_candidates_def makeApiRequest_def Let_def candidates_def
             split: if_splits option.splits)
  ultimately show ?thesis by blast
qed

theorem failed_fetch_returns_null_cache_unchanged_witness:
  "fetch_failed (Resolved \<lparr> ok = False, json = Some (5::nat) \<rparr>)
   \<and> makeApiRequest (\<lambda>ps. ''{}'') 15000 Map.empty 100 120
        (Resolved \<lparr> ok = False, json = Some (5::nat) \<rparr>) ''/global-metrics/quotes/latest'' []
      = (None, Map.empty, True)
   \<and> discover_candidates (\<lambda>ps. ''{}'') 15000 Map.empty 100 120
        (Rejected :: nat listings fetch_result) (listing_params (Fin 20) ''USD'' ''market_cap'' ''desc'')
      = []"
proof -
  have f: "fetch_failed (Resolved \<lparr> ok = False, json = Some (5::nat) \<rparr>)" by simp
  have m: "makeApiRequest (\<lambda>ps. ''{}'') 15000 Map.empty 100 120
        (Resolved \<lparr> ok = False, json = Some (5::nat) \<rparr>) ''/global-metrics/quotes/latest'' []
      = (None, Map.empty, True)"
    by (simp add: makeApiRequest_def Let_def)
  have l: "fetch_failed (Rejected :: nat listings fetch_result)
      \<and> snd (snd (makeApiRequest (\<lambda>ps. ''{}'') 15000 Map.empty 100 120
        (Rejected :: nat listings fetch_result) ''/cryptocurrency/listings/latest''
        (listing_params (Fin 20) ''USD'' ''market_cap'' ''desc'')))"
    by (simp add: makeApiRequest_def Let_def)
  have "\<forall>(lcache :: nat listings api_cache) lnet lps.
          fetch_failed lnet
          \<and> snd (snd (makeApiRequest (\<lambda>ps. ''{}'') 15000 lcache 100 120 lnet
                        ''/cryptocurrency/listings/latest'' lps))
          \<longrightarrow> discover_candidates (\<lambda>ps. ''{}'') 15000 lcache 100 120 lnet lps = []"
    by (rule conjunct2 [OF conjunct2 [OF failed_fetch_returns_null_cache_unchanged [OF f m]]])
  with l have "discover_candidates (\<lambda>ps. ''{}'') 15000 Map.empty 100 120
        (Rejected :: nat listings fetch_result) (listing_params (Fin 20) ''USD'' ''market_cap'' ''desc'')
      = []"
    by blast
  with f m show ?thesis by simp
qed

section \<open>The comparators\<close>

lemma jsne_ord: "ord_key u \<Longrightarrow> ord_key v \<Longrightarrow> jsne u v \<longleftrightarrow> u \<noteq> v"
  by (cases u; cases v; simp add: jsne_def)

lemma jsub_sign:
  "ord_key u \<Longrightarrow> ord_key v \<Longrightarrow> u \<noteq> v \<Longrightarrow>
   (jlt (jsub u v) (Fin 0) \<longleftrightarrow> jlt u v) \<and> (jlt (Fin 0) (jsub u v) \<longleftrightarrow> jlt v u)
   \<and> jsub u v \<noteq> Fin 0"
  by (cases u; cases v; simp add: jsub_def)

lemma jsub_sign_fin:
  "(jlt (jsub (Fin x) (Fin y)) (Fin 0) \<longleftrightarrow> x < y) \<and> (jlt (Fin 0) (jsub (Fin x) (Fin y)) \<longleftrightarrow> y < x)
   \<and> (jsub (Fin x) (Fin y) = Fin 0 \<longleftrightarrow> x = y)"
  by (simp add: jsub_def)

lemma jlt_irrefl [simp]: "\<not> jlt u u"
  by (cases u) simp_all

lemma jlt_asym: "jlt u v \<Longrightarrow> \<not> jlt v u"
  by (cases u; cases v; simp)

lemma jlt_total: "ord_key u \<Longrightarrow> ord_key v \<Longrightarrow> u \<noteq> v \<Longrightarrow> jlt u v \<or> jlt v u"
  by (cases u; cases v; auto)

lemma ord_ratingScore [simp]: "ord_key (ratingScore r)"
  by (cases r) simp_all

lemma ord_atr_or_inf: "finite_keys s \<Longrightarrow> ord_key (atr_or_inf s)"
  by (cases "atrPct s" rule: is_fin_opt.cases) (simp_all add: finite_keys_def atr_or_inf_def)

lemma ord_vol_or0: "finite_keys s \<Longrightarrow> ord_key (vol_or0 s)"
  by (cases "vol24h s" rule: is_fin_opt.cases) (simp_all add: finite_keys_def vol_or0_def)

lemma fin_abs_move: "finite_keys s \<Longrightarrow> \<exists>m. abs_move s = Fin m"
  by (cases "pct24h s" rule: is_fin_opt.cases) (simp_all add: finite_keys_def abs_move_def)

lemma agrees_diff:
  assumes "ord_key u" "ord_key v" "u \<noteq> v"
  shows "agrees (jsub u v) (jlt u v) (jlt v u)"
proof -
  note s = jsub_sign [OF assms]
  from jlt_total [OF assms] show ?thesis
  proof
    assume "jlt u v"
    with s jlt_asym [of u v] show ?thesis by (simp add: agrees_def)
  next
    assume "jlt v u"
    with s jlt_asym [of v u] show ?thesis by (simp add: agrees_def)
  qed
qed

lemma agrees_asc:
  assumes "ord_key u" "ord_key v" "agrees rest P Q"
  shows "agrees (if jsne u v then jsub u v else rest)
           (jlt u v \<or> (u = v \<and> P)) (jlt v u \<or> (v = u \<and> Q))"
proof (cases "u = v")
  case True
  with assms show ?thesis by (simp add: jsne_ord)
next
  case False
  with assms agrees_diff [OF assms(1,2)] show ?thesis
    by (simp add: jsne_ord eq_commute [of v u])
qed

lemma agrees_desc:
  assumes "ord_key u" "ord_key v" "agrees rest P Q"
  shows "agrees (if jsne v u then jsub v u else rest)
           (jgt u v \<or> (u = v \<and> P)) (jgt v u \<or> (v = u \<and> Q))"
proof (cases "u = v")
  case True
  with assms show ?thesis by (simp add: jsne_ord jgt_def)
next
  case False
  then have "v \<noteq> u" by simp
  from agrees_diff [OF assms(2,1) this] False assms show ?thesis
    by (simp add: jsne_ord jgt_def eq_commute [of v u] agrees_def)
qed

lemma agrees_last: "agrees (jsub (Fin mb) (Fin ma)) (jgt (Fin ma) (Fin mb)) (jgt (Fin mb) (Fin ma))"
  by (auto simp: agrees_def jsub_def)

lemma cmp_low_atr:
  "cmp ''strong_up_low_atr'' a b =
     (if jsne (ratingScore (rating b)) (ratingScore (rating a))
      then jsub (ratingScore (rating b)) (ratingScore (rating a))
      else if jsne (atr_or_inf a) (atr_or_inf b) then jsub (atr_or_inf a) (atr_or_inf b)
      else if jsne (vol_or0 b) (vol_or0 a) then jsub (vol_or0 b) (vol_or0 a)
      else jsub (abs_move b) (abs_move a))"
  by (simp add: cmp_def Let_def)

lemma pick_cmp_agrees:
  assumes "finite_keys a" "finite_keys b"
  shows "agrees (cmp ''strong_up_low_atr'' a b) (pick_before a b) (pick_before b a)"
proof -
  obtain ma mb where fin: "abs_move a = Fin ma" "abs_move b = Fin mb"
    using assms fin_abs_move by metis
  show ?thesis
    unfolding cmp_low_atr pick_before_def fin
    by (intro agrees_desc agrees_asc agrees_last ord_ratingScore ord_atr_or_inf ord_vol_or0 assms)
qed

lemma top_cmp_agrees:
  assumes "finite_keys a" "finite_keys b"
  shows "agrees (top_cmp a b) (top_before a b) (top_before b a)"
proof -
  obtain ma mb where fin: "abs_move a = Fin ma" "abs_move b = Fin mb"
    using assms fin_abs_move by metis
  show ?thesis
    unfolding top_cmp_def Let_def top_before_def fin
    by (intro agrees_desc agrees_asc agrees_last ord_ratingScore ord_atr_or_inf assms)
qed


text \<open>
  Claim C1, as the code has it. The rating scores are strong\_up 4, up 3, neutral 2,
  down 1, strong\_down 0. For the strategy \<open>strong_up_low_atr\<close> the comparator of
  \<open>discover-pick\<close> orders every two summaries by the first key on which they differ:
  rating score descending, then \<open>atrPercent\<close> ascending with absent as infinity, then 24h
  volume descending, then absolute 24h change descending. The comparator of
  \<open>discover-top\<close> has no volume key: it orders by rating score descending, then
  \<open>atrPercent\<close> ascending with absent as infinity, then absolute 24h change descending.
\<close>

theorem low_atr_comparators_order_by_first_differing_key:
  assumes "finite_keys a" "finite_keys b"
  shows "(jlt (cmp ''strong_up_low_atr'' a b) (Fin 0) \<longleftrightarrow> pick_before a b)
    \<and> (jlt (Fin 0) (cmp ''strong_up_low_atr'' a b) \<longleftrightarrow> pick_before b a)
    \<and> (cmp ''strong_up_low_atr'' a b = Fin 0 \<longleftrightarrow> \<not> pick_before a b \<and> \<not> pick_before b a)
    \<and> (jlt (top_cmp a b) (Fin 0) \<longleftrightarrow> top_before a b)
    \<and> (jlt (Fin 0) (top_cmp a b) \<longleftrightarrow> top_before b a)
    \<and> (top_cmp a b = Fin 0 \<longleftrightarrow> \<not> top_before a b \<and> \<not> top_before b a)
    \<and> map ratingScore [Strong_up, Up_rating, Neutral, Down_rating, Strong_down]
        = [Fin 4, Fin 3, Fin 2, Fin 1, Fin 0]"
  using pick_cmp_agrees [OF assms] top_cmp_agrees [OF assms]
  by (simp add: agrees_def)

theorem low_atr_comparators_order_by_first_differing_key_witness:
  "finite_keys hi_vol \<and> finite_keys big_move
   \<and> jlt (cmp ''strong_up_low_atr'' hi_vol big_move) (Fin 0)
   \<and> jlt (Fin 0) (top_cmp hi_vol big_move)"
proof -
  have fa: "finite_keys hi_vol" and fb: "finite_keys big_move"
    by (simp_all add: finite_keys_def hi_vol_def big_move_def)
  have p: "pick_before hi_vol big_move"
    by (simp add: pick_before_def hi_vol_def big_move_def atr_or_inf_def vol_or0_def)
  have t: "top_before big_move hi_vol"
    by (simp add: top_before_def hi_vol_def big_move_def atr_or_inf_def abs_move_def)
  from low_atr_comparators_order_by_first_differing_key [OF fa fb] p t fa fb
  show ?thesis by simp
qed

text \<open>
  Two summaries with the same rating and the same \<open>atrPercent\<close>, the first with the
  higher volume, the second with the larger move: the four keys put the first one first,
  and so does \<open>discover-pick\<close>; \<open>discover-top\<close> puts the second one first.
\<close>

theorem discover_top_ignores_volume_counterexample:
  "finite_keys hi_vol \<and> finite_keys big_move
   \<and> pick_before hi_vol big_move
   \<and> top_cmp hi_vol big_move = Fin 4
   \<and> \<not> jlt (top_cmp hi_vol big_move) (Fin 0)
   \<and> cmp ''strong_up_low_atr'' hi_vol big_move = Fin (- 8)"
  by (simp add: finite_keys_def pick_before_def top_cmp_def cmp_def Let_def hi_vol_def
      big_move_def atr_or_inf_def vol_or0_def abs_move_def jsne_def jsub_def)

section \<open>The request cache\<close>











section \<open>The Wilder recurrence\<close>

lemma rounded_Fin [simp]: "rounded Fin v = v"
  by (simp add: rounded_def split: jsnum.splits)

lemma rma_with_exact: "rma_with Fin arr n = rma arr n"
  by (simp add: rma_with_def rma_def)

lemma binade_numeral:
  "binade (numeral k) x =
     (if 2 \<le> \<bar>x\<bar> then binade (pred_numeral k) (x / 2) + 1
      else if \<bar>x\<bar> < 1 then binade (pred_numeral k) (x * 2) - 1
      else 0)"
  by (simp add: numeral_eq_Suc)

lemma rma_final: "rma arr n = (if int (length arr) < n then Null else Num (rma_val_at arr n (int (length arr))))"
  by (simp add: rma_def rma_val_at_def Let_def)

lemma sum_loop_Fin:
  "k \<le> length xs \<Longrightarrow>
   for_loop 0 (int k) (\<lambda>i sum. jadd sum (arr_num (map Fin xs) i)) (Fin 0) = Fin (sum_list (take k xs))"
proof (induction k)
  case 0
  then show ?case by (simp add: for_loop_done)
next
  case (Suc k)
  then have lt: "k < length xs" by simp
  have "for_loop 0 (int k + 1) (\<lambda>i sum. jadd sum (arr_num (map Fin xs) i)) (Fin 0)
      = jadd (for_loop 0 (int k) (\<lambda>i sum. jadd sum (arr_num (map Fin xs) i)) (Fin 0))
             (arr_num (map Fin xs) (int k))"
    by (rule for_loop_last) simp
  also have "\<dots> = Fin (sum_list (take k xs) + xs ! k)"
    using Suc.IH lt by (simp add: arr_num_nth)
  also have "sum_list (take k xs) + xs ! k = sum_list (take (Suc k) xs)"
    using lt by (simp add: take_Suc_conv_app_nth)
  finally show ?case by (simp add: add.commute)
qed

lemma sum_list_lower: "(\<forall>y \<in> set ys. lo \<le> y) \<Longrightarrow> lo * real (length ys) \<le> sum_list ys"
  by (induction ys) (auto simp: algebra_simps)

lemma sum_list_upper: "(\<forall>y \<in> set ys. y \<le> hi) \<Longrightarrow> sum_list ys \<le> hi * real (length ys)"
  by (induction ys) (auto simp: algebra_simps)

lemma mean_between:
  fixes ys :: "real list"
  assumes "ys \<noteq> []"
  shows "Min (set ys) \<le> sum_list ys / real (length ys)"
    and "sum_list ys / real (length ys) \<le> Max (set ys)"
proof -
  from assms have pos: "0 < real (length ys)" by simp
  have "Min (set ys) * real (length ys) \<le> sum_list ys"
    by (rule sum_list_lower) simp
  with pos show "Min (set ys) \<le> sum_list ys / real (length ys)"
    by (simp add: pos_le_divide_eq)
  have "sum_list ys \<le> Max (set ys) * real (length ys)"
    by (rule sum_list_upper) simp
  with pos show "sum_list ys / real (length ys) \<le> Max (set ys)"
    by (simp add: pos_divide_le_eq)
qed

lemma convex_lower:
  fixes a x v lo :: real
  assumes "0 \<le> a" "a \<le> 1" "lo \<le> x" "lo \<le> v"
  shows "lo \<le> a * x + (1 - a) * v"
proof -
  from assms have "0 \<le> a * (x - lo) + (1 - a) * (v - lo)"
    by (intro add_nonneg_nonneg mult_nonneg_nonneg) simp_all
  then show ?thesis
    by (simp add: algebra_simps)
qed

lemma convex_upper:
  fixes a x v hi :: real
  assumes "0 \<le> a" "a \<le> 1" "x \<le> hi" "v \<le> hi"
  shows "a * x + (1 - a) * v \<le> hi"
proof -
  from assms have "0 \<le> a * (hi - x) + (1 - a) * (hi - v)"
    by (intro add_nonneg_nonneg mult_nonneg_nonneg) simp_all
  then show ?thesis
    by (simp add: algebra_simps)
qed

lemma rma_val_at_seed:
  assumes "1 \<le> p" "p \<le> int (length xs)"
  shows "rma_val_at (map Fin xs) p p = Fin (sum_list (take (nat p) xs) / real_of_int p)"
proof -
  from assms have "nat p \<le> length xs" by simp
  from sum_loop_Fin [OF this] assms(1)
  have "for_loop 0 p (\<lambda>i sum. jadd sum (arr_num (map Fin xs) i)) (Fin 0)
      = Fin (sum_list (take (nat p) xs))"
    by simp
  with assms(1) show ?thesis
    by (simp add: rma_val_at_def Let_def for_loop_done)
qed

lemma rma_val_at_step:
  assumes "1 \<le> p" "p \<le> int m" "m < length xs"
  shows "rma_val_at (map Fin xs) p (int m + 1) =
     jadd (jmul (Fin (1 / real_of_int p)) (Fin (xs ! m)))
          (jmul (jsub (Fin 1) (Fin (1 / real_of_int p))) (rma_val_at (map Fin xs) p (int m)))"
proof -
  from assms(1) have a: "jdiv (Fin 1) (Fin (real_of_int p)) = Fin (1 / real_of_int p)"
    by simp
  show ?thesis
    unfolding rma_val_at_def Let_def a
    using assms by (subst for_loop_last) (simp_all add: arr_num_nth)
qed

lemma rma_val_at_bounded:
  assumes "1 \<le> p" "p \<le> int m" "m \<le> length xs"
  shows "\<exists>v. rma_val_at (map Fin xs) p (int m) = Fin v
           \<and> Min (set (take m xs)) \<le> v \<and> v \<le> Max (set (take m xs))"
  using assms(2,3)
proof (induction m)
  case 0
  with assms(1) show ?case by simp
next
  case (Suc m)
  show ?case
  proof (cases "p = int (Suc m)")
    case True
    then have n: "nat p = Suc m" by simp
    have ne: "take (Suc m) xs \<noteq> []" and len: "length (take (Suc m) xs) = Suc m"
      using Suc.prems by auto
    have "rma_val_at (map Fin xs) p p = Fin (sum_list (take (Suc m) xs) / real (Suc m))"
      using rma_val_at_seed [of p xs] assms(1) Suc.prems True n by simp
    moreover note mean_between [OF ne]
    ultimately show ?thesis
      using True len by (metis)
  next
    case False
    with Suc.prems have le: "p \<le> int m" and lt: "m < length xs" by simp_all
    from Suc.IH [OF le] lt obtain v where v: "rma_val_at (map Fin xs) p (int m) = Fin v"
      and lo: "Min (set (take m xs)) \<le> v" and hi: "v \<le> Max (set (take m xs))"
      by auto
    from assms(1) le have mpos: "0 < m" by simp
    with lt have ne: "set (take m xs) \<noteq> {}" by auto
    have set_eq: "set (take (Suc m) xs) = insert (xs ! m) (set (take m xs))"
      using lt by (simp add: take_Suc_conv_app_nth)
    have fin: "finite (set (take m xs))" by simp
    have Min_eq: "Min (set (take (Suc m) xs)) = min (xs ! m) (Min (set (take m xs)))"
      unfolding set_eq using fin ne by (rule Min_insert)
    have Max_eq: "Max (set (take (Suc m) xs)) = max (xs ! m) (Max (set (take m xs)))"
      unfolding set_eq using fin ne by (rule Max_insert)
    define a where "a = 1 / real_of_int p"
    from assms(1) have a01: "0 \<le> a" "a \<le> 1"
      by (simp_all add: a_def)
    have step: "rma_val_at (map Fin xs) p (int (Suc m)) = Fin (a * xs ! m + (1 - a) * v)"
      using rma_val_at_step [OF assms(1) le lt] v
      by (simp add: a_def jsub_def add.commute)
    have "Min (set (take (Suc m) xs)) \<le> a * xs ! m + (1 - a) * v"
      by (rule convex_lower [OF a01]) (use lo in \<open>simp_all add: Min_eq\<close>)
    moreover have "a * xs ! m + (1 - a) * v \<le> Max (set (take (Suc m) xs))"
      by (rule convex_upper [OF a01]) (use hi in \<open>simp_all add: Max_eq\<close>)
    ultimately show ?thesis
      using step by blast
  qed
qed


text \<open>
  Claim C9, as the code has it. For a series of finite numbers and a period \<open>p \<ge> 1\<close> not
  longer than the series, when the arithmetic is exact, the seed of \<open>rma\<close> (the mean of
  the first \<open>p\<close> elements) and every later value \<open>alpha * x + (1 - alpha) * prev\<close> with
  \<open>alpha = 1 / p\<close> lie between the least and the greatest of the elements read so far;
  the last of these values is what \<open>rma\<close> returns.
\<close>

theorem rma_values_between_min_and_max:
  assumes "1 \<le> p" "p \<le> int m" "m \<le> length xs"
  shows "rma_with Fin (map Fin xs) p = rma (map Fin xs) p
    \<and> rma (map Fin xs) p = Num (rma_val_at (map Fin xs) p (int (length xs)))
    \<and> (\<exists>v. rma_val_at (map Fin xs) p (int m) = Fin v
           \<and> Min (set (take m xs)) \<le> v \<and> v \<le> Max (set (take m xs)))"
  using rma_val_at_bounded [OF assms] assms by (simp add: rma_final rma_with_exact)

theorem rma_values_between_min_and_max_witness:
  "(1::int) \<le> 2 \<and> 2 \<le> int 3 \<and> 3 \<le> length [1, 3, 2 :: real]
   \<and> rma (map Fin [1, 3, 2]) 2 = Num (rma_val_at (map Fin [1, 3, 2]) 2 3)
   \<and> (\<exists>v. rma_val_at (map Fin [1, 3, 2]) 2 3 = Fin v \<and> 1 \<le> v \<and> v \<le> 3)"
  using rma_values_between_min_and_max [of 2 3 "[1, 3, 2]"] by simp

text \<open>
  In doubles the bound fails. The series is three times the double \<open>0.1\<close> and the period
  is 3: the sum rounds to \<open>0.30000000000000004\<close> and the seed, which is also the result,
  to \<open>0.10000000000000002\<close>, the next double above the greatest element.
\<close>

lemma for_loop_three: "for_loop 0 3 body acc = body 2 (body 1 (body 0 acc))"
  by (simp add: for_loop_step for_loop_done)

lemmas round64_eval = rounded_def round64_def binade_numeral pow2_def round_half_even_def Let_def

lemma sum_three_tenths:
  "for_loop 0 3 (\<lambda>i sum. rounded round64 (jadd sum (arr_num [Fin tenth, Fin tenth, Fin tenth] i)))
     (Fin 0) = Fin (1351079888211149 / 4503599627370496)"
  by (simp add: for_loop_three arr_num_def arr_get_def round64_eval tenth_def)

theorem rma_rounding_counterexample:
  "round64 (1 / 10) = Fin tenth
   \<and> rma_with round64 [Fin tenth, Fin tenth, Fin tenth] 3
       = Num (Fin (7205759403792795 / 72057594037927936))
   \<and> Max (set [tenth, tenth, tenth]) < 7205759403792795 / 72057594037927936"
proof -
  have "rma_with round64 [Fin tenth, Fin tenth, Fin tenth] 3
       = Num (Fin (7205759403792795 / 72057594037927936))"
    unfolding rma_with_def sum_three_tenths Let_def
    by (simp add: for_loop_done round64_eval)
  moreover have "Max (set [tenth, tenth, tenth]) < 7205759403792795 / 72057594037927936"
    by (simp add: tenth_def)
  moreover have "round64 (1 / 10) = Fin tenth"
    by (simp add: round64_eval tenth_def)
  ultimately show ?thesis
    by simp
qed

end
